theory Spec2Isabelle
  imports Complex_Main "HOL-Library.Multiset" "HOL-Library.Word"
begin

section \<open>JavaScript values produced by \<open>JSON.parse\<close>\<close>

text \<open>
  A JavaScript string is a sequence of UTF-16 code units, and \<open>.length\<close> counts them.
  \<open>str\<close> turns an ASCII literal of the source into such a sequence.
\<close>

type_synonym jsstring = "16 word list"

definition str :: "string \<Rightarrow> jsstring" where
  "str s = map (\<lambda>c. of_char c) s"

text \<open>
  The values \<open>JSON.parse\<close> can return. A number is a double: \<open>JNum\<close> holds a finite one
  by its value (a double is a rational), \<open>JNegZero\<close> is \<open>-0\<close> (the text \<open>-0\<close>), and
  \<open>JInfinity\<close> and \<open>JNegInfinity\<close> are what a literal too large for a double parses to
  (\<open>1e400\<close>, \<open>-1e400\<close>); \<open>NaN\<close> has no literal. An object holds each key once, in the
  order of its properties, so the association list of \<open>JObj\<close> is read with \<open>map_of\<close>.
  The JavaScript value \<open>undefined\<close> is not among them: an expression that may be
  \<open>undefined\<close> has type \<open>json option\<close>, with \<open>None\<close> for \<open>undefined\<close>.
\<close>

datatype json =
    JNull
  | JBool bool
  | JNum rat
  | JNegZero
  | JInfinity
  | JNegInfinity
  | JStr jsstring
  | JArr "json list"
  | JObj "(jsstring \<times> json) list"

datatype store_error = NotFoundError | AuthError | TransientError | ConflictError

text \<open>What the outer \<open>catch\<close> of a handler can receive: a failed request to the store, or
  the TypeError of a property read on \<open>null\<close>. (A failed \<open>JSON.parse\<close> is the \<open>None\<close> of
  the parser.)\<close>

datatype exn = StoreError store_error | TypeError

text \<open>
  \<open>json.reviews\<close> (server.js lines 76 and 116): reading a property of \<open>null\<close> throws a
  TypeError; an object gives its own property or \<open>undefined\<close>; a boolean, a number, a
  string and an array have no property of that name.
\<close>

fun get_reviews :: "json \<Rightarrow> exn + json option" where
  "get_reviews JNull = Inl TypeError"
| "get_reviews (JObj kvs) = Inr (map_of kvs (str ''reviews''))"
| "get_reviews _ = Inr None"

text \<open>JavaScript truthiness, as \<open>||\<close> tests it.\<close>

fun truthy :: "json \<Rightarrow> bool" where
  "truthy JNull = False"
| "truthy (JBool b) = b"
| "truthy (JNum n) = (n \<noteq> 0)"
| "truthy JNegZero = False"
| "truthy JInfinity = True"
| "truthy JNegInfinity = True"
| "truthy (JStr s) = (s \<noteq> [])"
| "truthy (JArr xs) = True"
| "truthy (JObj kvs) = True"

text \<open>\<open>json.reviews || []\<close>: \<open>undefined\<close> is falsy too.\<close>

fun or_empty :: "json option \<Rightarrow> json" where
  "or_empty None = JArr []"
| "or_empty (Some x) = (if truthy x then x else JArr [])"

text \<open>\<open>Array.isArray\<close>, and the elements of an array.\<close>

fun isArray :: "json \<Rightarrow> bool" where
  "isArray (JArr xs) = True"
| "isArray _ = False"

fun elements :: "json \<Rightarrow> json list" where
  "elements (JArr xs) = xs"
| "elements _ = []"

text \<open>
  \<open>reviews.length\<close> on a value that \<open>or_empty\<close> returned (never \<open>null\<close>): the number of
  elements of an array (fewer than \<open>2^32\<close>, so the number is exact), the number of code
  units of a string, the own property \<open>length\<close> of an object, and \<open>undefined\<close> on a boolean
  or a number.
\<close>

fun get_length :: "json \<Rightarrow> json option" where
  "get_length (JArr xs) = Some (JNum (of_nat (length xs)))"
| "get_length (JStr s) = Some (JNum (of_nat (length s)))"
| "get_length (JObj kvs) = map_of kvs (str ''length'')"
| "get_length _ = None"

text \<open>
  An object literal of the source, as \<open>JSON.stringify\<close> and \<open>res.json\<close> take it: a property
  whose value is \<open>undefined\<close> is left out of the text, so it is left out here.
\<close>

definition obj :: "(string \<times> json option) list \<Rightarrow> json" where
  "obj ps = JObj (List.map_filter (\<lambda>(k, v). map_option (Pair (str k)) v) ps)"

text \<open>
  What a value becomes in JSON text, read as the value that text stands for:
  \<open>JSON.stringify\<close> writes \<open>null\<close> for a number that is not finite and \<open>0\<close> for \<open>-0\<close>, at any
  depth, and everything else as it is. This is what the client of \<open>res.json\<close> receives.
\<close>

primrec sent :: "json \<Rightarrow> json" where
  "sent JNull = JNull"
| "sent (JBool b) = JBool b"
| "sent (JNum n) = JNum n"
| "sent JNegZero = JNum 0"
| "sent JInfinity = JNull"
| "sent JNegInfinity = JNull"
| "sent (JStr s) = JStr s"
| "sent (JArr xs) = JArr (map sent xs)"
| "sent (JObj kvs) = JObj (map (map_prod id sent) kvs)"

section \<open>The remote store\<close>

text \<open>
  Modelled from the spec: the remote content store (the GitHub contents API behind
  \<open>octokit.repos.getContent\<close> and \<open>octokit.repos.createOrUpdateFileContents\<close>) is not
  part of the repository. Section 4.1 of the spec gives its contract: \<open>fetch\<close> returns
  the content and the version token of the file, \<open>put\<close> writes only if the expected
  token is the current one and fails with \<open>ConflictError\<close> otherwise, and a successful
  \<open>put\<close> creates a new version. The token is opaque and compared by equality only; here
  it is a counter. Either call can also fail for a reason of the service's own
  (\<open>AuthError\<close>, \<open>TransientError\<close>): \<open>faults\<close> is the schedule of such failures, one
  entry consumed by each call, none left meaning no failure. A failed call leaves the
  file as it was. \<open>calls\<close> records the calls made, oldest first.
\<close>

type_synonym sha = nat

record 'c remote =
  content :: 'c
  version :: sha

datatype 'c call = Fetch | Put 'c sha

record 'c world =
  blob :: "'c remote option"
  faults :: "store_error option list"
  calls :: "'c call list"

definition next_fault :: "'c world \<Rightarrow> store_error option \<times> 'c world" where
  "next_fault w =
     (case faults w of
        [] \<Rightarrow> (None, w)
      | f # fs \<Rightarrow> (f, w\<lparr>faults := fs\<rparr>))"

definition fetch :: "'c world \<Rightarrow> (store_error + 'c remote) \<times> 'c world" where
  "fetch w =
     (case next_fault w of
        (f, w1) \<Rightarrow>
          (let w2 = w1\<lparr>calls := calls w1 @ [Fetch]\<rparr> in
             (case f of
                Some e \<Rightarrow> (Inl e, w2)
              | None \<Rightarrow>
                  (case blob w2 of
                     None \<Rightarrow> (Inl NotFoundError, w2)
                   | Some r \<Rightarrow> (Inr r, w2)))))"

definition put :: "'c \<Rightarrow> sha \<Rightarrow> 'c world \<Rightarrow> (store_error + sha) \<times> 'c world" where
  "put c t w =
     (case next_fault w of
        (f, w1) \<Rightarrow>
          (let w2 = w1\<lparr>calls := calls w1 @ [Put c t]\<rparr> in
             (case f of
                Some e \<Rightarrow> (Inl e, w2)
              | None \<Rightarrow>
                  (case blob w2 of
                     None \<Rightarrow> (Inl ConflictError, w2)
                   | Some r \<Rightarrow>
                       if version r = t
                       then (Inr (Suc t), w2\<lparr>blob := Some \<lparr>content = c, version = Suc t\<rparr>\<rparr>)
                       else (Inl ConflictError, w2)))))"

section \<open>server.js\<close>

text \<open>\<open>readGitHubFile\<close> (lines 29-40): the content and the sha of the file, or the
  exception of the failed request.\<close>

definition readGitHubFile :: "'c world \<Rightarrow> (exn + 'c \<times> sha) \<times> 'c world" where
  "readGitHubFile w =
     (case fetch w of
        (Inl e, w1) \<Rightarrow> (Inl (StoreError e), w1)
      | (Inr r, w1) \<Rightarrow> (Inr (content r, version r), w1))"

text \<open>\<open>writeGitHubFile\<close> (lines 45-55): one conditional write with the sha given.\<close>

definition writeGitHubFile :: "'c \<Rightarrow> sha \<Rightarrow> 'c world \<Rightarrow> (exn + unit) \<times> 'c world" where
  "writeGitHubFile newContent s w =
     (case put newContent s w of
        (Inl e, w1) \<Rightarrow> (Inl (StoreError e), w1)
      | (Inr t, w1) \<Rightarrow> (Inr (), w1))"

text \<open>A response as the client receives it: the status code and the value of the JSON
  text of the body. \<open>res_json c v\<close> is \<open>res.status(c).json(v)\<close>.\<close>

record response =
  code :: nat
  body :: json

definition res_json :: "nat \<Rightarrow> json \<Rightarrow> response" where
  "res_json c v = \<lparr>code = c, body = sent v\<rparr>"

text \<open>The three fixed responses of the handlers (lines 73, 79-83, 105 and 122).\<close>

definition invalid_json :: response where
  "invalid_json =
     res_json 500 (obj [(''error'', Some (JStr (str ''Invalid JSON format in reviews.json'')))])"

definition internal_error :: response where
  "internal_error =
     res_json 500 (obj [(''error'', Some (JStr (str ''Internal server error'')))])"

definition no_reviews_left :: response where
  "no_reviews_left =
     res_json 200
       (obj [(''done'', Some (JBool True)),
             (''message'', Some (JStr (str ''No reviews left in file.''))),
             (''review'', Some JNull)])"

text \<open>The answer to a draw (lines 98-102); \<open>res.json\<close> without \<open>res.status\<close> answers 200.\<close>

definition drawn :: "json option \<Rightarrow> nat \<Rightarrow> response" where
  "drawn selectedReview n =
     res_json 200
       (obj [(''done'', Some (JBool False)),
             (''review'', selectedReview),
             (''remaining'', Some (JNum (of_nat n)))])"

text \<open>
  \<open>Math.random()\<close> returns a double in \<open>[0, 1)\<close>. Such a double is \<open>mant / 2 ^ scale\<close> with
  a mantissa of at most 53 bits and a binary exponent no lower than \<open>-1074\<close>, and every
  such quotient below one is a double.
\<close>

record double =
  mant :: nat
  scale :: nat

definition unit_double :: "double \<Rightarrow> bool" where
  "unit_double d \<longleftrightarrow> mant d < 2 ^ 53 \<and> scale d \<le> 1074 \<and> mant d < 2 ^ scale d"

text \<open>The number of binary digits of a natural number.\<close>

fun bit_length :: "nat \<Rightarrow> nat" where
  "bit_length n = (if n = 0 then 0 else Suc (bit_length (n div 2)))"

declare bit_length.simps [simp del]

text \<open>\<open>M / 2 ^ s\<close> rounded to the nearest natural number, a tie to the even one.\<close>

definition round_half_even :: "nat \<Rightarrow> nat \<Rightarrow> nat" where
  "round_half_even M s =
     (let q = M div 2 ^ s; r = M mod 2 ^ s
      in if 2 * r < 2 ^ s then q
         else if 2 ^ s < 2 * r then q + 1
         else if even q then q else q + 1)"

text \<open>
  The product \<open>Math.random() * reviews.length\<close> of line 87, as IEEE 754 computes it: the
  exact product \<open>mant * n / 2 ^ scale\<close>, its numerator rounded to 53 significant bits,
  ties to even (nothing is rounded when it has no more than 53 bits). The result is
  left as numerator and scale. The length, below \<open>2^32\<close>, is exact as a double; the
  product neither overflows nor loses bits to underflow, being at most the length and,
  whenever it has more than 53 bits, at least \<open>2^-1021\<close>.
\<close>

definition multiply :: "double \<Rightarrow> nat \<Rightarrow> double" where
  "multiply d n =
     (let M = mant d * n; s = bit_length M - 53
      in \<lparr>mant = round_half_even M s * 2 ^ s, scale = scale d\<rparr>)"

text \<open>\<open>Math.floor\<close> of a double that is not negative.\<close>

definition floor_double :: "double \<Rightarrow> int" where
  "floor_double d = int (mant d div 2 ^ scale d)"

text \<open>
  Lines 87-91, the selection step, which the spec names \<open>selectAndRemove\<close>. \<open>rnd\<close> is the
  value \<open>Math.random()\<close> returns. \<open>reviews[index]\<close> is \<open>undefined\<close> outside the array, and
  \<open>splice(index, 1)\<close> clamps its start to the array (a negative start counts from the
  end) and removes the element there, if there is one.
\<close>

definition random_index :: "double \<Rightarrow> json list \<Rightarrow> int" where
  "random_index rnd reviews = floor_double (multiply rnd (length reviews))"

definition element_at :: "json list \<Rightarrow> int \<Rightarrow> json option" where
  "element_at reviews i =
     (if 0 \<le> i \<and> i < int (length reviews) then Some (reviews ! nat i) else None)"

definition splice1 :: "json list \<Rightarrow> int \<Rightarrow> json list" where
  "splice1 reviews i =
     (let len = int (length reviews);
          start = (if i < 0 then max (len + i) 0 else min i len)
      in take (nat start) reviews @ drop (Suc (nat start)) reviews)"

definition selectAndRemove :: "double \<Rightarrow> json list \<Rightarrow> json option \<times> json list" where
  "selectAndRemove rnd reviews =
     (let index = random_index rnd reviews;
          selectedReview = element_at reviews index
      in (selectedReview, splice1 reviews index))"

text \<open>
  The handler of \<open>GET /next-review\<close> (lines 65-107) runs in two parts, separated by
  \<open>await writeGitHubFile\<close>: other requests and other writers run between them.
  \<open>parse\<close> is \<open>JSON.parse\<close> (\<open>None\<close> when it throws) and \<open>stringify\<close> is
  \<open>JSON.stringify(_, null, 2)\<close>; both belong to the language, not to the repository, and
  \<open>'c\<close> is the type of the text of the file.

  The first part, up to the call of \<open>writeGitHubFile\<close>, either answers or leaves a
  write to be made.
\<close>

record 'c pending =
  newJson :: 'c
  fetched_sha :: sha
  selected :: "json option"
  remaining :: nat

datatype 'c progress = Reply response | Write "'c pending"

definition next_review_fetch ::
  "('c \<Rightarrow> json option) \<Rightarrow> (json \<Rightarrow> 'c) \<Rightarrow> double \<Rightarrow> 'c world \<Rightarrow> 'c progress \<times> 'c world" where
  "next_review_fetch parse stringify rnd w =
     (case readGitHubFile w of
        (Inl e, w1) \<Rightarrow> (Reply internal_error, w1)
      | (Inr (c, s), w1) \<Rightarrow>
          (case parse c of
             None \<Rightarrow> (Reply invalid_json, w1)
           | Some json \<Rightarrow>
               (case get_reviews json of
                  Inl e \<Rightarrow> (Reply internal_error, w1)
                | Inr v \<Rightarrow>
                    let reviews = or_empty v in
                    if \<not> isArray reviews \<or> get_length reviews = Some (JNum 0)
                    then (Reply no_reviews_left, w1)
                    else
                      (case selectAndRemove rnd (elements reviews) of
                         (selectedReview, reviews') \<Rightarrow>
                           (Write \<lparr>newJson = stringify (obj [(''reviews'', Some (JArr reviews'))]),
                                   fetched_sha = s,
                                   selected = selectedReview,
                                   remaining = length reviews'\<rparr>, w1)))))"

text \<open>The second part: the write (line 96), then the answer (lines 98-102) or the
  \<open>catch\<close> (lines 103-106).\<close>

definition next_review_write :: "'c pending \<Rightarrow> 'c world \<Rightarrow> response \<times> 'c world" where
  "next_review_write p w =
     (case writeGitHubFile (newJson p) (fetched_sha p) w of
        (Inl e, w1) \<Rightarrow> (internal_error, w1)
      | (Inr u, w1) \<Rightarrow> (drawn (selected p) (remaining p), w1))"

text \<open>A request that nothing interleaves with.\<close>

definition next_review ::
  "('c \<Rightarrow> json option) \<Rightarrow> (json \<Rightarrow> 'c) \<Rightarrow> double \<Rightarrow> 'c world \<Rightarrow> response \<times> 'c world" where
  "next_review parse stringify rnd w =
     (case next_review_fetch parse stringify rnd w of
        (Reply r, w1) \<Rightarrow> (r, w1)
      | (Write p, w1) \<Rightarrow> next_review_write p w1)"

text \<open>The handler of \<open>GET /status\<close> (lines 112-124). Both a failed parse and the
  TypeError of \<open>null.reviews\<close> reach the one \<open>catch\<close>.\<close>

definition status :: "('c \<Rightarrow> json option) \<Rightarrow> 'c world \<Rightarrow> response \<times> 'c world" where
  "status parse w =
     (case readGitHubFile w of
        (Inl e, w1) \<Rightarrow> (internal_error, w1)
      | (Inr (c, s), w1) \<Rightarrow>
          (case parse c of
             None \<Rightarrow> (internal_error, w1)
           | Some json \<Rightarrow>
               (case get_reviews json of
                  Inl e \<Rightarrow> (internal_error, w1)
                | Inr v \<Rightarrow>
                    (res_json 200 (obj [(''count'', get_length (or_empty v))]), w1))))"

section \<open>Observing the service\<close>

text \<open>The value a handler would take for \<open>reviews\<close> from the file as it stands: what
  lines 67-76 compute, without the request.\<close>

definition remote_reviews :: "('c \<Rightarrow> json option) \<Rightarrow> 'c world \<Rightarrow> json option" where
  "remote_reviews parse w =
     (case blob w of
        None \<Rightarrow> None
      | Some r \<Rightarrow>
          (case parse (content r) of
             None \<Rightarrow> None
           | Some j \<Rightarrow>
               (case get_reviews j of
                  Inl e \<Rightarrow> None
                | Inr v \<Rightarrow> Some (or_empty v))))"

text \<open>A client calling \<open>GET /next-review\<close> again and again, one request after the other;
  the list gives the value of \<open>Math.random()\<close> at hand for each request.\<close>

fun draw_all ::
  "('c \<Rightarrow> json option) \<Rightarrow> (json \<Rightarrow> 'c) \<Rightarrow> double list \<Rightarrow> 'c world
     \<Rightarrow> response list \<times> 'c world" where
  "draw_all parse stringify [] w = ([], w)"
| "draw_all parse stringify (rnd # rnds) w =
     (case next_review parse stringify rnd w of
        (r, w1) \<Rightarrow>
          (case draw_all parse stringify rnds w1 of
             (rs, w2) \<Rightarrow> (r # rs, w2)))"

text \<open>A property of the body of a response, as the client reads it.\<close>

definition field :: "string \<Rightarrow> response \<Rightarrow> json option" where
  "field k r = (case body r of JObj kvs \<Rightarrow> map_of kvs (str k) | _ \<Rightarrow> None)"

section \<open>Sanity of the encodings\<close>

lemma str_abc: "str ''abc'' = [97, 98, 99]"
  by (simp add: str_def)

lemma sent_example:
  "sent (JArr [JInfinity, JNegInfinity, JNegZero, JNum 5, JStr (str ''A''), JBool True,
               JObj [(str ''k'', JArr [JInfinity, JNull])]])
     = JArr [JNull, JNull, JNum 0, JNum 5, JStr (str ''A''), JBool True,
             JObj [(str ''k'', JArr [JNull, JNull])]]"
  by simp

lemma sent_obj:
  "sent (obj ps) = obj (map (\<lambda>(k, v). (k, map_option sent v)) ps)"
  by (induction ps) (auto simp: obj_def List.map_filter_def)

lemma sent_sent: "sent (sent v) = sent v"
  by (induction v) (auto simp: prod.map_comp comp_def intro!: prod.map_cong0)

section \<open>The double product\<close>

lemma bit_length_bounds:
  "0 < n \<Longrightarrow> 2 ^ (bit_length n - 1) \<le> n \<and> n < 2 ^ bit_length n"
proof (induction n rule: bit_length.induct)
  case (1 n)
  show ?case
  proof (cases "n div 2 = 0")
    case True
    then have n1: "n = Suc 0" using 1(2) by auto
    have "bit_length (Suc 0) = Suc 0"
      by (simp add: bit_length.simps [of "Suc 0"] bit_length.simps [of 0])
    then show ?thesis by (simp add: n1)
  next
    case False
    then have pos: "0 < n div 2" by simp
    have IH: "2 ^ (bit_length (n div 2) - 1) \<le> n div 2" "n div 2 < 2 ^ bit_length (n div 2)"
      using 1(1) 1(2) pos by simp_all
    have bl: "bit_length n = Suc (bit_length (n div 2))"
      using 1(2) by (simp add: bit_length.simps [of n])
    have b1: "0 < bit_length (n div 2)"
      using pos by (simp add: bit_length.simps [of "n div 2"])
    then obtain k where k: "bit_length (n div 2) = Suc k" by (cases "bit_length (n div 2)") auto
    define p :: nat where "p = 2 ^ k"
    have "p \<le> n div 2" "n div 2 < 2 * p" using IH k by (simp_all add: p_def)
    then have "2 * p \<le> n" "n < 2 * (2 * p)" by arith+
    then show ?thesis by (simp add: bl k p_def)
  qed
qed

lemma bit_length_small:
  assumes "n < 2 ^ k"
  shows "bit_length n \<le> k"
proof (cases "n = 0")
  case True
  then show ?thesis by (simp add: bit_length.simps [of 0])
next
  case False
  have "2 ^ (bit_length n - 1) \<le> n" using bit_length_bounds False by simp
  then have "(2::nat) ^ (bit_length n - 1) < 2 ^ k" using assms by (rule le_less_trans)
  then have "bit_length n - 1 < k" by (rule power_less_imp_less_exp [rotated]) simp
  then show ?thesis by simp
qed

lemma bit_length_eq:
  assumes "2 ^ (b - 1) \<le> n" "n < 2 ^ b" "0 < n"
  shows "bit_length n = b"
proof -
  have lo: "2 ^ (bit_length n - 1) \<le> n" and hi: "n < 2 ^ bit_length n"
    using bit_length_bounds [OF assms(3)] by simp_all
  have "(2::nat) ^ (b - 1) < 2 ^ bit_length n" using assms(1) hi by (rule le_less_trans)
  then have 1: "b - 1 < bit_length n" by (rule power_less_imp_less_exp [rotated]) simp
  have "(2::nat) ^ (bit_length n - 1) < 2 ^ b" using lo assms(2) by (rule le_less_trans)
  then have 2: "bit_length n - 1 < b" by (rule power_less_imp_less_exp [rotated]) simp
  have "0 < b" using assms(2,3) by (cases b) simp_all
  then show ?thesis using 1 2 by linarith
qed

text \<open>Rounding moves the numerator by half a unit of the last place at most, up or down.\<close>

lemma round_half_even_upper:
  "2 * (round_half_even M s * 2 ^ s) \<le> 2 * M + 2 ^ s"
proof -
  define q where "q = M div 2 ^ s"
  define r where "r = M mod 2 ^ s"
  define S :: nat where "S = 2 ^ s"
  have M: "M = q * S + r" unfolding q_def r_def S_def by (rule div_mult_mod_eq [symmetric])
  have "round_half_even M s \<le> (if 2 * r < S then q else q + 1)"
    by (simp add: round_half_even_def Let_def q_def r_def S_def)
  then have "round_half_even M s * S \<le> (if 2 * r < S then q else q + 1) * S"
    by (rule mult_le_mono1)
  moreover have "2 * ((if 2 * r < S then q else q + 1) * S) \<le> 2 * M + S"
    by (auto simp: M algebra_simps)
  ultimately show ?thesis unfolding S_def by linarith
qed

lemma round_half_even_lower:
  "2 * M \<le> 2 * (round_half_even M s * 2 ^ s) + 2 ^ s"
proof -
  define q where "q = M div 2 ^ s"
  define r where "r = M mod 2 ^ s"
  define S :: nat where "S = 2 ^ s"
  have M: "M = q * S + r" unfolding q_def r_def S_def by (rule div_mult_mod_eq [symmetric])
  have "(if 2 * r \<le> S then q else q + 1) \<le> round_half_even M s"
    by (simp add: round_half_even_def Let_def q_def r_def S_def)
  then have "(if 2 * r \<le> S then q else q + 1) * S \<le> round_half_even M s * S"
    by (rule mult_le_mono1)
  moreover have "r < S" unfolding r_def S_def by simp
  then have "2 * M \<le> 2 * ((if 2 * r \<le> S then q else q + 1) * S) + S"
    by (auto simp: M algebra_simps)
  ultimately show ?thesis unfolding S_def by linarith
qed

lemma round_half_even_exact: "round_half_even M 0 = M"
  by (simp add: round_half_even_def)

text \<open>A double below one is at most \<open>1 - 2^-53\<close>.\<close>

lemma unit_double_top:
  assumes "(m::nat) < 2 ^ 53" "m < 2 ^ k"
  shows "2 ^ 53 * m + 2 ^ k \<le> 2 ^ 53 * 2 ^ (k::nat)"
proof -
  define P :: nat where "P = 2 ^ 53"
  define K :: nat where "K = 2 ^ k"
  have m: "m + 1 \<le> P" "m + 1 \<le> K" using assms by (simp_all add: P_def K_def)
  have "P * m + K \<le> P * K"
  proof (cases "53 \<le> k")
    case True
    then have "P \<le> K" unfolding P_def K_def by (intro power_increasing) simp_all
    have "(m + 1) * K \<le> P * K" using m(1) by (rule mult_le_mono1)
    then have "m * K + K \<le> P * K" by (simp add: algebra_simps)
    moreover have "P * m \<le> K * m" using \<open>P \<le> K\<close> by (rule mult_le_mono1)
    moreover have "K * m = m * K" by (rule mult.commute)
    ultimately show ?thesis by linarith
  next
    case False
    then have "K \<le> P" unfolding P_def K_def by (intro power_increasing) simp_all
    have "P * (m + 1) \<le> P * K" using m(2) by (rule mult_le_mono2)
    then have "P * m + P \<le> P * K" by (simp add: algebra_simps)
    then show ?thesis using \<open>K \<le> P\<close> by linarith
  qed
  then show ?thesis by (simp only: P_def K_def)
qed

text \<open>The rounded product stays below the length, so its floor is an index of the list.\<close>

lemma random_index_bounds:
  assumes "reviews \<noteq> []" "unit_double rnd"
  shows "0 \<le> random_index rnd reviews" "random_index rnd reviews < int (length reviews)"
proof -
  define n where "n = length reviews"
  define m where "m = mant rnd"
  define k where "k = scale rnd"
  define M where "M = m * n"
  define s where "s = bit_length M - 53"
  define A where "A = round_half_even M s * 2 ^ s"
  define B where "B = n * 2 ^ k"
  define S :: nat where "S = 2 ^ s"
  define P :: nat where "P = 2 ^ 53"
  have n: "0 < n" using assms(1) by (simp add: n_def)
  have m53: "m < 2 ^ 53" and mk: "m < 2 ^ k"
    using assms(2) by (simp_all only: unit_double_def m_def k_def)
  show "0 \<le> random_index rnd reviews"
    by (simp add: random_index_def floor_double_def)
  have ri: "random_index rnd reviews = int (A div 2 ^ k)"
    by (simp add: random_index_def floor_double_def multiply_def Let_def A_def s_def M_def
          m_def n_def k_def)
  have MB: "M < B" using mk n by (simp add: M_def B_def)
  have r: "2 * A \<le> 2 * M + S"
    unfolding A_def S_def by (rule round_half_even_upper)
  have "P * m + 2 ^ k \<le> P * 2 ^ k"
    unfolding P_def using m53 mk by (rule unit_double_top)
  then have "(P * m + 2 ^ k) * n \<le> (P * 2 ^ k) * n" by (rule mult_le_mono1)
  then have top: "P * M + B \<le> P * B"
    by (simp add: M_def B_def algebra_simps)
  have AB: "A < B"
  proof (cases "M < 2 ^ 53")
    case True
    then have "bit_length M \<le> 53" by (rule bit_length_small)
    then have "s = 0" by (simp add: s_def)
    then have "A = M" by (simp add: A_def round_half_even_exact)
    then show ?thesis using MB by simp
  next
    case False
    then have Mpos: "0 < M" by (cases "M = 0") simp_all
    have "\<not> bit_length M \<le> 53"
    proof
      assume "bit_length M \<le> 53"
      then have "(2::nat) ^ bit_length M \<le> 2 ^ 53" by (intro power_increasing) simp_all
      moreover have "M < 2 ^ bit_length M" using bit_length_bounds [OF Mpos] by simp
      ultimately show False using False by linarith
    qed
    then have "bit_length M - 1 = 52 + s" by (simp add: s_def)
    then have "2 ^ (52 + s) \<le> M" using bit_length_bounds [OF Mpos] by simp
    then have "2 * 2 ^ (52 + s) \<le> 2 * M" by simp
    moreover have "2 * 2 ^ (52 + s) = P * S"
      unfolding P_def S_def by (simp only: power_add [symmetric] power_Suc [symmetric]) simp
    ultimately have low: "P * S \<le> 2 * M" by simp
    have "P * (2 * A) \<le> P * (2 * M + S)" using r by (rule mult_le_mono2)
    then have "2 * (P * A) \<le> 2 * (P * M) + P * S" by (simp add: algebra_simps)
    then have "P * A < P * B" using top low MB by linarith
    then show ?thesis by simp
  qed
  have "A div 2 ^ k < n"
    using AB by (simp add: B_def less_mult_imp_div_less)
  then show "random_index rnd reviews < int (length reviews)"
    by (simp add: ri n_def)
qed

text \<open>Nothing is rounded while the numerator of the product has at most 53 bits.\<close>

lemma random_index_exact:
  assumes "mant rnd * length reviews < 2 ^ 53"
  shows "random_index rnd reviews = int ((mant rnd * length reviews) div 2 ^ scale rnd)"
proof -
  have "bit_length (mant rnd * length reviews) \<le> 53" using assms by (rule bit_length_small)
  then show ?thesis
    by (simp add: random_index_def floor_double_def multiply_def Let_def round_half_even_exact)
qed

text \<open>
  Where rounding decides: \<open>Math.random()\<close> \<open>= 0.3333333333333333\<close> is
  \<open>6004799503160661 / 2^54\<close>; three times it is \<open>1 - 2^-54\<close>, a tie that rounds to \<open>1\<close>,
  so the index drawn among three reviews is 1, where the exact product would give 0.
\<close>

lemma random_index_rounds_up:
  "unit_double \<lparr>mant = 6004799503160661, scale = 54\<rparr>
   \<and> random_index \<lparr>mant = 6004799503160661, scale = 54\<rparr> [a, b, c] = 1
   \<and> \<lfloor>(6004799503160661 / 2 ^ 54 :: rat) * 3\<rfloor> = 0"
proof -
  have "bit_length 18014398509481983 = 54"
    by (rule bit_length_eq) simp_all
  then have "random_index \<lparr>mant = 6004799503160661, scale = 54\<rparr> [a, b, c] = 1"
    by (simp add: random_index_def floor_double_def multiply_def Let_def round_half_even_def)
  moreover have "\<lfloor>(6004799503160661 / 2 ^ 54 :: rat) * 3\<rfloor> = 0"
    by (simp add: floor_eq_iff)
  ultimately show ?thesis by (simp add: unit_double_def)
qed

section \<open>The selection step\<close>

lemma splice1_in_range:
  "i < length reviews \<Longrightarrow> splice1 reviews (int i) = take i reviews @ drop (Suc i) reviews"
  by (simp add: splice1_def Let_def)

lemma mset_remove_nth:
  "i < length xs \<Longrightarrow> mset (take i xs @ drop (Suc i) xs) = mset xs - {#xs ! i#}"
proof -
  assume i: "i < length xs"
  have "xs = take i xs @ xs ! i # drop (Suc i) xs"
    using i by (simp add: id_take_nth_drop)
  then have "mset xs = mset (take i xs @ drop (Suc i) xs) + {#xs ! i#}"
    by (metis mset_append mset.simps(2) union_mset_add_mset_right add.right_neutral)
  then show ?thesis by simp
qed

lemma selectAndRemove_in_range:
  assumes "reviews \<noteq> []" "unit_double rnd"
  shows "nat (random_index rnd reviews) < length reviews"
    and "selectAndRemove rnd reviews =
           (Some (reviews ! nat (random_index rnd reviews)),
            take (nat (random_index rnd reviews)) reviews
              @ drop (Suc (nat (random_index rnd reviews))) reviews)"
proof -
  define i where "i = nat (random_index rnd reviews)"
  have b: "0 \<le> random_index rnd reviews" "random_index rnd reviews < int (length reviews)"
    using random_index_bounds [OF assms] by simp_all
  have i: "i < length reviews" and ri: "random_index rnd reviews = int i"
    using b by (simp_all add: i_def)
  show "nat (random_index rnd reviews) < length reviews"
    using i by (simp add: i_def)
  have "selectAndRemove rnd reviews = (Some (reviews ! i), take i reviews @ drop (Suc i) reviews)"
    using i by (simp add: selectAndRemove_def Let_def ri element_at_def splice1_in_range)
  then show "selectAndRemove rnd reviews =
           (Some (reviews ! nat (random_index rnd reviews)),
            take (nat (random_index rnd reviews)) reviews
              @ drop (Suc (nat (random_index rnd reviews))) reviews)"
    by (simp add: i_def)
qed

text \<open>
  C1. For a non-empty list and a double in \<open>[0, 1)\<close> returned by \<open>Math.random()\<close>, the index
  drawn by line 87, with its product rounded as the machine rounds it,
  lies in the list, the chosen element is the element at that index, and the residual
  list is the input without that position: it is one shorter, its elements are those of
  the input minus one occurrence of the chosen element, and every other element keeps
  its place relative to the others (the ones before the index stay, the ones after move
  up by one).
\<close>

theorem selectAndRemove_residual:
  assumes "reviews \<noteq> []" "unit_double rnd"
  shows "nat (random_index rnd reviews) < length reviews
       \<and> fst (selectAndRemove rnd reviews) = Some (reviews ! nat (random_index rnd reviews))
       \<and> snd (selectAndRemove rnd reviews) =
           take (nat (random_index rnd reviews)) reviews
             @ drop (Suc (nat (random_index rnd reviews))) reviews
       \<and> length (snd (selectAndRemove rnd reviews)) = length reviews - 1
       \<and> mset (snd (selectAndRemove rnd reviews)) =
           mset reviews - {#reviews ! nat (random_index rnd reviews)#}
       \<and> (\<forall>j < length reviews - 1. snd (selectAndRemove rnd reviews) ! j =
             (if j < nat (random_index rnd reviews) then reviews ! j else reviews ! Suc j))"
proof -
  define i where "i = nat (random_index rnd reviews)"
  have i: "i < length reviews"
    and sel: "selectAndRemove rnd reviews =
                (Some (reviews ! i), take i reviews @ drop (Suc i) reviews)"
    using selectAndRemove_in_range [OF assms] by (simp_all add: i_def)
  have nth: "\<forall>j < length reviews - 1. (take i reviews @ drop (Suc i) reviews) ! j =
             (if j < i then reviews ! j else reviews ! Suc j)"
    using i by (auto simp: nth_append min_def)
  have ms: "mset (take i reviews @ drop (Suc i) reviews) = mset reviews - {#reviews ! i#}"
    using i by (rule mset_remove_nth)
  have len: "length (take i reviews @ drop (Suc i) reviews) = length reviews - 1"
    using i by simp
  show ?thesis
    unfolding i_def [symmetric] sel fst_conv snd_conv using i ms len nth by blast
qed

theorem selectAndRemove_residual_witness:
  "fst (selectAndRemove \<lparr>mant = 6004799503160661, scale = 54\<rparr>
          [JStr (str ''A''), JStr (str ''B''), JStr (str ''C'')])
     = Some (JStr (str ''B''))
   \<and> snd (selectAndRemove \<lparr>mant = 6004799503160661, scale = 54\<rparr>
          [JStr (str ''A''), JStr (str ''B''), JStr (str ''C'')])
     = [JStr (str ''A''), JStr (str ''C'')]"
proof -
  let ?rnd = "\<lparr>mant = 6004799503160661, scale = 54\<rparr>"
  let ?xs = "[JStr (str ''A''), JStr (str ''B''), JStr (str ''C'')]"
  have u: "unit_double ?rnd" and i: "random_index ?rnd ?xs = 1"
    using random_index_rounds_up [of "JStr (str ''A'')" "JStr (str ''B'')" "JStr (str ''C'')"]
    by simp_all
  have ne: "?xs \<noteq> []" by simp
  show ?thesis
    using selectAndRemove_residual [OF ne u] by (simp add: i)
qed

section \<open>The store and the two halves of a draw\<close>

lemma readGitHubFile_frame:
  "blob (snd (readGitHubFile w)) = blob w \<and> calls (snd (readGitHubFile w)) = calls w @ [Fetch]"
  by (simp add: readGitHubFile_def fetch_def next_fault_def Let_def
           split: list.splits option.splits)

lemma readGitHubFile_frameD:
  assumes "readGitHubFile w = (x, w1)"
  shows "blob w1 = blob w" "calls w1 = calls w @ [Fetch]"
  using readGitHubFile_frame [of w] assms by simp_all

lemma readGitHubFile_ok:
  assumes "faults w = []" "blob w = Some r"
  shows "readGitHubFile w = (Inr (content r, version r), w\<lparr>calls := calls w @ [Fetch]\<rparr>)"
  using assms by (simp add: readGitHubFile_def fetch_def next_fault_def Let_def)

lemma writeGitHubFile_log:
  "calls (snd (writeGitHubFile c s w)) = calls w @ [Put c s]"
  by (simp add: writeGitHubFile_def put_def next_fault_def Let_def
           split: list.splits option.splits)

lemma writeGitHubFile_failed:
  assumes "writeGitHubFile c s w = (Inl e, w1)"
  shows "blob w1 = blob w"
  using assms by (auto simp: writeGitHubFile_def put_def next_fault_def Let_def
           split: list.splits option.splits if_splits)

lemma writeGitHubFile_ok:
  assumes "faults w = []" "blob w = Some r" "version r = s"
  shows "writeGitHubFile c s w =
           (Inr (), w\<lparr>calls := calls w @ [Put c s], blob := Some \<lparr>content = c, version = Suc s\<rparr>\<rparr>)"
  using assms by (simp add: writeGitHubFile_def put_def next_fault_def Let_def)

lemma writeGitHubFile_stale:
  assumes "faults w = []" "blob w = Some r" "version r \<noteq> s"
  shows "writeGitHubFile c s w = (Inl (StoreError ConflictError), w\<lparr>calls := calls w @ [Put c s]\<rparr>)"
  using assms by (simp add: writeGitHubFile_def put_def next_fault_def Let_def)

lemma next_review_fetch_nonempty:
  assumes "readGitHubFile w = (Inr (c, s), w1)" "parse c = Some j" "get_reviews j = Inr v"
    "or_empty v = JArr reviews" "reviews \<noteq> []"
  shows "next_review_fetch parse stringify rnd w =
           (Write \<lparr>newJson = stringify (obj [(''reviews'', Some (JArr (snd (selectAndRemove rnd reviews))))]),
                   fetched_sha = s,
                   selected = fst (selectAndRemove rnd reviews),
                   remaining = length (snd (selectAndRemove rnd reviews))\<rparr>, w1)"
  using assms by (simp add: next_review_fetch_def Let_def split: prod.splits)

lemma next_review_fetch_empty:
  assumes "readGitHubFile w = (Inr (c, s), w1)" "parse c = Some j" "get_reviews j = Inr v"
    "\<not> isArray (or_empty v) \<or> elements (or_empty v) = []"
  shows "next_review_fetch parse stringify rnd w = (Reply no_reviews_left, w1)"
proof (cases "or_empty v")
  case (JArr xs)
  then show ?thesis using assms by (simp add: next_review_fetch_def Let_def)
qed (use assms in \<open>simp_all add: next_review_fetch_def Let_def\<close>)

lemma next_review_fetch_frame:
  assumes "next_review_fetch parse stringify rnd w = (x, w1)"
  shows "blob w1 = blob w" "calls w1 = calls w @ [Fetch]" "faults w = [] \<Longrightarrow> faults w1 = []"
proof -
  obtain y w' where r: "readGitHubFile w = (y, w')" by (cases "readGitHubFile w")
  have "w1 = w'"
    using r assms
    by (auto simp: next_review_fetch_def Let_def
             split: sum.splits prod.splits option.splits if_splits)
  then show "blob w1 = blob w" "calls w1 = calls w @ [Fetch]"
    using readGitHubFile_frameD [OF r] by simp_all
  show "faults w1 = []" if "faults w = []"
    using that r \<open>w1 = w'\<close>
    by (auto simp: readGitHubFile_def fetch_def next_fault_def Let_def split: option.splits)
qed

lemma next_review_fetch_sha:
  assumes "next_review_fetch parse stringify rnd w = (Write p, w1)" "faults w = []"
  shows "\<exists>r. blob w = Some r \<and> fetched_sha p = version r"
  using assms
  by (auto simp: next_review_fetch_def readGitHubFile_def fetch_def next_fault_def Let_def
           split: sum.splits prod.splits option.splits if_splits)

section \<open>Drawing until the list is empty\<close>

lemma field_drawn:
  "field ''done'' (drawn (Some x) n) = Some (JBool False)"
  "field ''review'' (drawn (Some x) n) = Some (sent x)"
  "field ''remaining'' (drawn (Some x) n) = Some (JNum (of_nat n))"
  "code (drawn (Some x) n) = 200"
  by (simp_all add: field_def drawn_def res_json_def obj_def List.map_filter_def str_def)

lemma remote_reviewsE:
  assumes "remote_reviews parse w = Some a"
  obtains r j v where "blob w = Some r" "parse (content r) = Some j"
    "get_reviews j = Inr v" "or_empty v = a"
  using assms by (auto simp: remote_reviews_def split: option.splits sum.splits)

lemma next_review_terminal:
  assumes "remote_reviews parse w = Some (JArr [])" "faults w = []"
  shows "next_review parse stringify rnd w = (no_reviews_left, w\<lparr>calls := calls w @ [Fetch]\<rparr>)"
proof -
  obtain r j v where b: "blob w = Some r"
    and p: "parse (content r) = Some j" "get_reviews j = Inr v" "or_empty v = JArr []"
    using assms(1) by (rule remote_reviewsE)
  note h = readGitHubFile_ok [OF assms(2) b] p
  have "\<not> isArray (or_empty v) \<or> elements (or_empty v) = []" using h(4) by simp
  from next_review_fetch_empty [where parse = parse and stringify = stringify and rnd = rnd, OF h(1-3) this]
  show ?thesis by (simp add: next_review_def)
qed

lemma next_review_draw:
  assumes "remote_reviews parse w = Some (JArr xs)" "faults w = []"
    and "xs \<noteq> []" "unit_double rnd"
    and codec: "parse (stringify (obj [(''reviews'', Some (JArr (snd (selectAndRemove rnd xs))))]))
                  = Some (sent (obj [(''reviews'', Some (JArr (snd (selectAndRemove rnd xs))))]))"
  shows "fst (next_review parse stringify rnd w)
           = drawn (Some (xs ! nat (random_index rnd xs))) (length xs - 1)"
    and "faults (snd (next_review parse stringify rnd w)) = []"
    and "remote_reviews parse (snd (next_review parse stringify rnd w))
           = Some (JArr (map sent (snd (selectAndRemove rnd xs))))"
proof -
  define i where "i = nat (random_index rnd xs)"
  obtain r j v where b: "blob w = Some r"
    and p: "parse (content r) = Some j" "get_reviews j = Inr v" "or_empty v = JArr xs"
    using assms(1) by (rule remote_reviewsE)
  note h = readGitHubFile_ok [OF assms(2) b] p
  have sel: "selectAndRemove rnd xs = (Some (xs ! i), take i xs @ drop (Suc i) xs)"
    and i: "i < length xs"
    using selectAndRemove_in_range [OF assms(3,4)] by (simp_all add: i_def)
  let ?c = "stringify (obj [(''reviews'', Some (JArr (take i xs @ drop (Suc i) xs)))])"
  let ?w1 = "w\<lparr>calls := calls w @ [Fetch]\<rparr>"
  let ?w2 = "?w1\<lparr>calls := calls ?w1 @ [Put ?c (version r)],
                 blob := Some \<lparr>content = ?c, version = Suc (version r)\<rparr>\<rparr>"
  have wr: "writeGitHubFile ?c (version r) ?w1 = (Inr (), ?w2)"
    using writeGitHubFile_ok [of ?w1 r "version r" ?c] assms(2) b by simp
  have n: "next_review parse stringify rnd w = (drawn (Some (xs ! i)) (length xs - 1), ?w2)"
    using next_review_fetch_nonempty
            [where parse = parse and stringify = stringify and rnd = rnd, OF h assms(3)] wr i
    by (simp add: next_review_def next_review_write_def sel)
  show "fst (next_review parse stringify rnd w)
           = drawn (Some (xs ! nat (random_index rnd xs))) (length xs - 1)"
    by (simp add: n i_def)
  show "faults (snd (next_review parse stringify rnd w)) = []"
    using assms(2) by (simp add: n)
  have "get_reviews (sent (obj [(''reviews'', Some (JArr ys))])) = Inr (Some (JArr (map sent ys)))"
    for ys
    by (simp add: obj_def List.map_filter_def)
  then have "remote_reviews parse ?w2 = Some (JArr (map sent (take i xs @ drop (Suc i) xs)))"
    using codec by (simp add: remote_reviews_def sel)
  then show "remote_reviews parse (snd (next_review parse stringify rnd w))
           = Some (JArr (map sent (snd (selectAndRemove rnd xs))))"
    by (simp add: n sel)
qed

lemma remote_reviews_calls [simp]:
  "remote_reviews parse (w\<lparr>calls := l\<rparr>) = remote_reviews parse w"
  by (simp add: remote_reviews_def)

lemma draw_all_Cons:
  "draw_all parse stringify (rnd # rnds) w =
     (fst (next_review parse stringify rnd w)
        # fst (draw_all parse stringify rnds (snd (next_review parse stringify rnd w))),
      snd (draw_all parse stringify rnds (snd (next_review parse stringify rnd w))))"
  by (simp split: prod.splits)

lemma draw_all_exhausts:
  "(\<forall>ys. set ys \<subseteq> set xs \<union> sent ` set xs \<longrightarrow>
      parse (stringify (obj [(''reviews'', Some (JArr ys))]))
        = Some (sent (obj [(''reviews'', Some (JArr ys))]))) \<Longrightarrow>
   remote_reviews parse w = Some (JArr xs) \<Longrightarrow> faults w = [] \<Longrightarrow>
   length rnds = length xs \<Longrightarrow> (\<forall>rnd \<in> set rnds. unit_double rnd) \<Longrightarrow>
   length (fst (draw_all parse stringify (rnds @ [rnd']) w)) = Suc (length xs)
   \<and> (\<forall>k < length xs.
         code (fst (draw_all parse stringify (rnds @ [rnd']) w) ! k) = 200
       \<and> field ''done'' (fst (draw_all parse stringify (rnds @ [rnd']) w) ! k) = Some (JBool False)
       \<and> field ''remaining'' (fst (draw_all parse stringify (rnds @ [rnd']) w) ! k)
           = Some (JNum (of_nat (length xs - 1 - k))))
   \<and> mset (map (field ''review'') (take (length xs) (fst (draw_all parse stringify (rnds @ [rnd']) w))))
       = mset (map (\<lambda>x. Some (sent x)) xs)
   \<and> fst (draw_all parse stringify (rnds @ [rnd']) w) ! length xs = no_reviews_left
   \<and> remote_reviews parse (snd (draw_all parse stringify (rnds @ [rnd']) w)) = Some (JArr [])"
proof (induction rnds arbitrary: w xs)
  case Nil
  then have xs: "xs = []" by simp
  have "next_review parse stringify rnd' w = (no_reviews_left, w\<lparr>calls := calls w @ [Fetch]\<rparr>)"
    using next_review_terminal Nil.prems(2,3) xs by blast
  then show ?case using Nil.prems(2) xs by simp
next
  case (Cons rnd rnds)
  define i where "i = nat (random_index rnd xs)"
  define w1 where "w1 = snd (next_review parse stringify rnd w)"
  define ys where "ys = take i xs @ drop (Suc i) xs"
  define xs' where "xs' = map sent ys"
  define D where "D = draw_all parse stringify (rnds @ [rnd']) w1"
  have ne: "xs \<noteq> []" and r: "unit_double rnd" using Cons.prems(4,5) by auto
  have i: "i < length xs"
    and sel: "selectAndRemove rnd xs = (Some (xs ! i), ys)"
    using selectAndRemove_in_range [OF ne r] by (simp_all add: i_def ys_def)
  have sub: "set ys \<subseteq> set xs"
    using set_take_subset [of i xs] set_drop_subset [of "Suc i" xs] by (auto simp: ys_def)
  have len': "length xs' = length xs - 1" "length rnds = length xs'"
    using i Cons.prems(4) by (simp_all add: xs'_def ys_def)
  have codec1: "parse (stringify (obj [(''reviews'', Some (JArr (snd (selectAndRemove rnd xs))))]))
                  = Some (sent (obj [(''reviews'', Some (JArr (snd (selectAndRemove rnd xs))))]))"
    using Cons.prems(1) sub by (simp add: sel le_supI1)
  have step: "fst (next_review parse stringify rnd w) = drawn (Some (xs ! i)) (length xs - 1)"
    "faults w1 = []" "remote_reviews parse w1 = Some (JArr xs')"
    using next_review_draw [where parse = parse and stringify = stringify, OF Cons.prems(2,3) ne r codec1]
    by (simp_all add: i_def w1_def xs'_def sel)
  have "set xs' \<union> sent ` set xs' \<subseteq> set xs \<union> sent ` set xs"
    using sub by (auto simp: xs'_def sent_sent)
  then have codec': "\<forall>zs. set zs \<subseteq> set xs' \<union> sent ` set xs' \<longrightarrow>
      parse (stringify (obj [(''reviews'', Some (JArr zs))]))
        = Some (sent (obj [(''reviews'', Some (JArr zs))]))"
    using Cons.prems(1) by (meson subset_trans)
  have IH: "length (fst D) = Suc (length xs')"
    "\<forall>k < length xs'. code (fst D ! k) = 200
           \<and> field ''done'' (fst D ! k) = Some (JBool False)
           \<and> field ''remaining'' (fst D ! k) = Some (JNum (of_nat (length xs' - 1 - k)))"
    "mset (map (field ''review'') (take (length xs') (fst D))) = mset (map (\<lambda>x. Some (sent x)) xs')"
    "fst D ! length xs' = no_reviews_left"
    "remote_reviews parse (snd D) = Some (JArr [])"
    using Cons.IH [OF codec' step(3,2) len'(2)] Cons.prems(5) by (simp_all add: D_def)
  have D0: "draw_all parse stringify (rnd # (rnds @ [rnd'])) w
              = (drawn (Some (xs ! i)) (length xs - 1) # fst D, snd D)"
    by (simp add: draw_all_Cons step(1) D_def w1_def del: draw_all.simps)
  have N: "length xs = Suc (length xs')" using i len'(1) by simp
  have c1: "length (fst (draw_all parse stringify ((rnd # rnds) @ [rnd']) w)) = Suc (length xs)"
    by (simp add: D0 IH(1) N del: draw_all.simps)
  have c2: "code (fst (draw_all parse stringify ((rnd # rnds) @ [rnd']) w) ! k) = 200
           \<and> field ''done'' (fst (draw_all parse stringify ((rnd # rnds) @ [rnd']) w) ! k) = Some (JBool False)
           \<and> field ''remaining'' (fst (draw_all parse stringify ((rnd # rnds) @ [rnd']) w) ! k)
               = Some (JNum (of_nat (length xs - 1 - k)))" if "k < length xs" for k
  proof (cases k)
    case 0
    then show ?thesis by (simp add: D0 field_drawn del: draw_all.simps)
  next
    case (Suc m)
    then have "m < length xs'" using that N by simp
    then show ?thesis using IH(2) Suc by (simp add: D0 N del: draw_all.simps)
  qed
  have mx: "mset xs = mset ys + {#xs ! i#}"
    using mset_remove_nth [OF i] i by (simp add: ys_def)
  have "map (\<lambda>x. Some (sent x)) xs' = map (\<lambda>x. Some (sent x)) ys"
    by (simp add: xs'_def sent_sent)
  then have c3: "mset (map (field ''review'') (take (length xs) (fst (draw_all parse stringify ((rnd # rnds) @ [rnd']) w))))
           = mset (map (\<lambda>x. Some (sent x)) xs)"
    using IH(3) by (simp add: D0 N field_drawn mx del: draw_all.simps)
  have c4: "fst (draw_all parse stringify ((rnd # rnds) @ [rnd']) w) ! length xs = no_reviews_left"
    by (simp add: D0 N IH(4) del: draw_all.simps)
  have c5: "remote_reviews parse (snd (draw_all parse stringify ((rnd # rnds) @ [rnd']) w)) = Some (JArr [])"
    by (simp add: D0 IH(5) del: draw_all.simps)
  show ?case using c1 c2 c3 c4 c5 by blast
qed

text \<open>
  C2, as the code has it. Let the file hold a list \<open>xs\<close> of \<open>N\<close> reviews, let no call of the
  store fail, and let \<open>N + 1\<close> requests run one after the other with nothing else writing
  the file, under any doubles in \<open>[0, 1)\<close> for \<open>Math.random()\<close>, and with \<open>JSON.parse\<close> reading
  back what \<open>JSON.stringify\<close> wrote for the lists of these reviews. Then there are
  \<open>N + 1\<close> answers; each of the first \<open>N\<close> is a 200 with \<open>done: false\<close> and \<open>remaining\<close>
  counting down from \<open>N - 1\<close> to \<open>0\<close>; their \<open>review\<close> fields are the elements of \<open>xs\<close> as
  JSON text carries them, each occurrence returned once, in some order, and they are
  the elements of \<open>xs\<close> themselves when JSON text carries all of them unchanged; the last
  answer is the terminal one; and the file then holds the empty list.
\<close>

theorem draw_all_exhaustion:
  assumes "\<forall>ys. set ys \<subseteq> set xs \<union> sent ` set xs \<longrightarrow>
             parse (stringify (obj [(''reviews'', Some (JArr ys))]))
               = Some (sent (obj [(''reviews'', Some (JArr ys))]))"
    and "remote_reviews parse w = Some (JArr xs)" "faults w = []"
    and "length rnds = length xs" "\<forall>rnd \<in> set rnds. unit_double rnd"
  shows "length (fst (draw_all parse stringify (rnds @ [rnd']) w)) = Suc (length xs)
       \<and> (\<forall>k < length xs.
             code (fst (draw_all parse stringify (rnds @ [rnd']) w) ! k) = 200
           \<and> field ''done'' (fst (draw_all parse stringify (rnds @ [rnd']) w) ! k) = Some (JBool False)
           \<and> field ''remaining'' (fst (draw_all parse stringify (rnds @ [rnd']) w) ! k)
               = Some (JNum (of_nat (length xs - 1 - k))))
       \<and> mset (map (field ''review'') (take (length xs) (fst (draw_all parse stringify (rnds @ [rnd']) w))))
           = mset (map (\<lambda>x. Some (sent x)) xs)
       \<and> ((\<forall>x \<in> set xs. sent x = x) \<longrightarrow>
            mset (map (field ''review'') (take (length xs) (fst (draw_all parse stringify (rnds @ [rnd']) w))))
              = mset (map Some xs))
       \<and> fst (draw_all parse stringify (rnds @ [rnd']) w) ! length xs = no_reviews_left
       \<and> remote_reviews parse (snd (draw_all parse stringify (rnds @ [rnd']) w)) = Some (JArr [])"
proof -
  note e = draw_all_exhausts [where rnd' = rnd', OF assms]
  have "map (\<lambda>x. Some (sent x)) xs = map Some xs" if "\<forall>x \<in> set xs. sent x = x"
    using that by (simp cong: map_cong)
  then show ?thesis using e by (metis (no_types, lifting))
qed

theorem draw_all_exhaustion_witness:
  "mset (map (field ''review'')
      (take 2 (fst (draw_all Some sent
         [\<lparr>mant = 1, scale = 1\<rparr>, \<lparr>mant = 0, scale = 0\<rparr>, \<lparr>mant = 0, scale = 0\<rparr>]
         \<lparr>blob = Some \<lparr>content = JObj [(str ''reviews'', JArr [JStr (str ''A''), JStr (str ''B'')])],
                        version = 1\<rparr>, faults = [], calls = []\<rparr>))))
     = {#Some (JStr (str ''A'')), Some (JStr (str ''B''))#}
   \<and> code (fst (draw_all Some sent
         [\<lparr>mant = 1, scale = 1\<rparr>, \<lparr>mant = 0, scale = 0\<rparr>, \<lparr>mant = 0, scale = 0\<rparr>]
         \<lparr>blob = Some \<lparr>content = JObj [(str ''reviews'', JArr [JStr (str ''A''), JStr (str ''B'')])],
                        version = 1\<rparr>, faults = [], calls = []\<rparr>) ! 0) = 200
   \<and> field ''done'' (fst (draw_all Some sent
         [\<lparr>mant = 1, scale = 1\<rparr>, \<lparr>mant = 0, scale = 0\<rparr>, \<lparr>mant = 0, scale = 0\<rparr>]
         \<lparr>blob = Some \<lparr>content = JObj [(str ''reviews'', JArr [JStr (str ''A''), JStr (str ''B'')])],
                        version = 1\<rparr>, faults = [], calls = []\<rparr>) ! 0) = Some (JBool False)
   \<and> field ''remaining'' (fst (draw_all Some sent
         [\<lparr>mant = 1, scale = 1\<rparr>, \<lparr>mant = 0, scale = 0\<rparr>, \<lparr>mant = 0, scale = 0\<rparr>]
         \<lparr>blob = Some \<lparr>content = JObj [(str ''reviews'', JArr [JStr (str ''A''), JStr (str ''B'')])],
                        version = 1\<rparr>, faults = [], calls = []\<rparr>) ! 0) = Some (JNum 1)
   \<and> field ''remaining'' (fst (draw_all Some sent
         [\<lparr>mant = 1, scale = 1\<rparr>, \<lparr>mant = 0, scale = 0\<rparr>, \<lparr>mant = 0, scale = 0\<rparr>]
         \<lparr>blob = Some \<lparr>content = JObj [(str ''reviews'', JArr [JStr (str ''A''), JStr (str ''B'')])],
                        version = 1\<rparr>, faults = [], calls = []\<rparr>) ! 1) = Some (JNum 0)
   \<and> fst (draw_all Some sent
         [\<lparr>mant = 1, scale = 1\<rparr>, \<lparr>mant = 0, scale = 0\<rparr>, \<lparr>mant = 0, scale = 0\<rparr>]
         \<lparr>blob = Some \<lparr>content = JObj [(str ''reviews'', JArr [JStr (str ''A''), JStr (str ''B'')])],
                        version = 1\<rparr>, faults = [], calls = []\<rparr>) ! 2
     = \<lparr>code = 200,
        body = JObj [(str ''done'', JBool True),
                     (str ''message'', JStr (str ''No reviews left in file.'')),
                     (str ''review'', JNull)]\<rparr>
   \<and> remote_reviews Some (snd (draw_all Some sent
         [\<lparr>mant = 1, scale = 1\<rparr>, \<lparr>mant = 0, scale = 0\<rparr>, \<lparr>mant = 0, scale = 0\<rparr>]
         \<lparr>blob = Some \<lparr>content = JObj [(str ''reviews'', JArr [JStr (str ''A''), JStr (str ''B'')])],
                        version = 1\<rparr>, faults = [], calls = []\<rparr>)) = Some (JArr [])"
proof -
  let ?xs = "[JStr (str ''A''), JStr (str ''B'')]"
  let ?w = "\<lparr>blob = Some \<lparr>content = JObj [(str ''reviews'', JArr ?xs)], version = 1\<rparr>,
            faults = [], calls = [] :: json call list\<rparr>"
  let ?rnds = "[\<lparr>mant = 1, scale = 1\<rparr>, \<lparr>mant = 0, scale = 0\<rparr>]"
  have codec: "\<forall>ys. set ys \<subseteq> set ?xs \<union> sent ` set ?xs \<longrightarrow>
                 Some (sent (obj [(''reviews'', Some (JArr ys))]))
                   = Some (sent (obj [(''reviews'', Some (JArr ys))]))"
    by simp
  have r: "remote_reviews Some ?w = Some (JArr ?xs)"
    by (simp add: remote_reviews_def)
  have f: "faults ?w = []" by simp
  have l: "length ?rnds = length ?xs" by simp
  have b: "\<forall>rnd \<in> set ?rnds. unit_double rnd" by (simp add: unit_double_def)
  show ?thesis
    using draw_all_exhaustion [where parse = Some and stringify = sent
        and rnd' = "\<lparr>mant = 0, scale = 0\<rparr>", OF codec r f l b]
    by (simp add: numeral_2_eq_2 All_less_Suc no_reviews_left_def res_json_def obj_def
          List.map_filter_def del: draw_all.simps)
qed

text \<open>
  The file \<open>{"reviews": [1e400, "A"]}\<close> parses to the list of \<open>Infinity\<close> and \<open>"A"\<close>. The
  first request draws \<open>"A"\<close> and writes the rest back as \<open>[null]\<close>; the second draws \<open>null\<close>.
  The reviews returned are \<open>"A"\<close> and \<open>null\<close>, not the two elements the list held.
\<close>

theorem draw_all_exhaustion_counterexample:
  "remote_reviews Some
     \<lparr>blob = Some \<lparr>content = JObj [(str ''reviews'', JArr [JInfinity, JStr (str ''A'')])],
                    version = 1\<rparr>, faults = [], calls = []\<rparr>
     = Some (JArr [JInfinity, JStr (str ''A'')])
   \<and> map (field ''review'')
      (take 2 (fst (draw_all Some sent
         [\<lparr>mant = 1, scale = 1\<rparr>, \<lparr>mant = 0, scale = 0\<rparr>, \<lparr>mant = 0, scale = 0\<rparr>]
         \<lparr>blob = Some \<lparr>content = JObj [(str ''reviews'', JArr [JInfinity, JStr (str ''A'')])],
                        version = 1\<rparr>, faults = [], calls = []\<rparr>)))
     = [Some (JStr (str ''A'')), Some JNull]
   \<and> mset [Some (JStr (str ''A'')), Some JNull] \<noteq> mset (map Some [JInfinity, JStr (str ''A'')])"
proof -
  let ?c0 = "JObj [(str ''reviews'', JArr [JInfinity, JStr (str ''A'')])]"
  let ?c1 = "JObj [(str ''reviews'', JArr [JNull])]"
  let ?c2 = "JObj [(str ''reviews'', JArr [])]"
  let ?w0 = "\<lparr>blob = Some \<lparr>content = ?c0, version = 1\<rparr>, faults = [], calls = []\<rparr>"
  let ?w1 = "\<lparr>blob = Some \<lparr>content = ?c1, version = 2\<rparr>, faults = [],
             calls = [Fetch, Put ?c1 1]\<rparr>"
  let ?w2 = "\<lparr>blob = Some \<lparr>content = ?c2, version = 3\<rparr>, faults = [],
             calls = [Fetch, Put ?c1 1, Fetch, Put ?c2 2]\<rparr>"
  let ?w3 = "\<lparr>blob = Some \<lparr>content = ?c2, version = 3\<rparr>, faults = [],
             calls = [Fetch, Put ?c1 1, Fetch, Put ?c2 2, Fetch]\<rparr>"
  have first: "next_review Some sent \<lparr>mant = 1, scale = 1\<rparr> ?w0
                 = (drawn (Some (JStr (str ''A''))) 1, ?w1)"
    by (simp add: next_review_def next_review_fetch_def next_review_write_def readGitHubFile_def
          writeGitHubFile_def fetch_def put_def next_fault_def selectAndRemove_def random_index_exact
          element_at_def splice1_def obj_def List.map_filter_def)
  have second: "next_review Some sent \<lparr>mant = 0, scale = 0\<rparr> ?w1
                 = (drawn (Some JNull) 0, ?w2)"
    by (simp add: next_review_def next_review_fetch_def next_review_write_def readGitHubFile_def
          writeGitHubFile_def fetch_def put_def next_fault_def selectAndRemove_def random_index_exact
          element_at_def splice1_def obj_def List.map_filter_def)
  have third: "next_review Some sent \<lparr>mant = 0, scale = 0\<rparr> ?w2 = (no_reviews_left, ?w3)"
    by (simp add: next_review_def next_review_fetch_def readGitHubFile_def fetch_def next_fault_def)
  have "draw_all Some sent
          [\<lparr>mant = 1, scale = 1\<rparr>, \<lparr>mant = 0, scale = 0\<rparr>, \<lparr>mant = 0, scale = 0\<rparr>] ?w0
          = ([drawn (Some (JStr (str ''A''))) 1, drawn (Some JNull) 0, no_reviews_left], ?w3)"
    by (simp only: draw_all.simps first second third prod.case)
  then have returned: "map (field ''review'')
      (take 2 (fst (draw_all Some sent
         [\<lparr>mant = 1, scale = 1\<rparr>, \<lparr>mant = 0, scale = 0\<rparr>, \<lparr>mant = 0, scale = 0\<rparr>] ?w0)))
     = [Some (JStr (str ''A'')), Some JNull]"
    by (simp add: numeral_2_eq_2 field_drawn del: draw_all.simps)
  have held: "remote_reviews Some ?w0 = Some (JArr [JInfinity, JStr (str ''A'')])"
    by (simp add: remote_reviews_def)
  have "Some JInfinity \<notin> set [Some (JStr (str ''A'')), Some JNull]" by simp
  moreover have "Some JInfinity \<in> set (map Some [JInfinity, JStr (str ''A'')])" by simp
  ultimately have differ: "mset [Some (JStr (str ''A'')), Some JNull]
                     \<noteq> mset (map Some [JInfinity, JStr (str ''A'')])"
    by (metis mset_eq_setD)
  show ?thesis using held returned differ by (intro conjI)
qed

section \<open>Parsing\<close>

text \<open>
  C3. The document \<open>null\<close> is valid JSON (\<open>JSON.parse\<close> returns \<open>null\<close>) and has no
  \<open>reviews\<close> field, yet the request does not end with the terminal answer: reading
  \<open>null.reviews\<close> throws, and the outer \<open>catch\<close> answers 500. Another document that is
  not an object, the number \<open>5\<close>, does get the terminal answer.
\<close>

theorem null_document_is_valid_json_but_fails:
  "get_reviews JNull = Inl TypeError
   \<and> fst (next_review Some sent \<lparr>mant = 0, scale = 0\<rparr>
          \<lparr>blob = Some \<lparr>content = JNull, version = 1\<rparr>, faults = [], calls = []\<rparr>)
       = internal_error
   \<and> code internal_error = 500
   \<and> internal_error \<noteq> no_reviews_left
   \<and> fst (next_review Some sent \<lparr>mant = 0, scale = 0\<rparr>
          \<lparr>blob = Some \<lparr>content = JNum 5, version = 1\<rparr>, faults = [], calls = []\<rparr>)
       = no_reviews_left"
  by (simp add: next_review_def next_review_fetch_def readGitHubFile_def fetch_def
        next_fault_def internal_error_def res_json_def no_reviews_left_def)

text \<open>
  C9. Whenever the fetched content parses to \<open>null\<close>, the request ends in the outer
  \<open>catch\<close>: the answer is the 500 "Internal server error", not the terminal answer, and
  the store has only been read.
\<close>

theorem next_review_null_document:
  assumes "readGitHubFile w = (Inr (c, s), w1)" "parse c = Some JNull"
  shows "next_review parse stringify rnd w = (internal_error, w1)
       \<and> code internal_error = 500
       \<and> internal_error \<noteq> no_reviews_left
       \<and> blob w1 = blob w
       \<and> calls w1 = calls w @ [Fetch]"
  using assms readGitHubFile_frameD [OF assms(1)]
  by (simp add: next_review_def next_review_fetch_def internal_error_def res_json_def no_reviews_left_def)

theorem next_review_null_document_witness:
  "next_review Some sent \<lparr>mant = 0, scale = 0\<rparr>
     \<lparr>blob = Some \<lparr>content = JNull, version = 3\<rparr>, faults = [], calls = []\<rparr>
   = (\<lparr>code = 500, body = JObj [(str ''error'', JStr (str ''Internal server error''))]\<rparr>,
      \<lparr>blob = Some \<lparr>content = JNull, version = 3\<rparr>, faults = [], calls = [Fetch]\<rparr>)"
  using next_review_null_document [where parse = Some and stringify = sent and rnd = "\<lparr>mant = 0, scale = 0\<rparr>"
      and w = "\<lparr>blob = Some \<lparr>content = JNull, version = 3\<rparr>, faults = [], calls = []\<rparr>"
      and c = JNull and s = 3
      and ?w1.0 = "\<lparr>blob = Some \<lparr>content = JNull, version = 3\<rparr>, faults = [], calls = [Fetch]\<rparr>"]
  by (simp add: readGitHubFile_def fetch_def next_fault_def internal_error_def res_json_def obj_def
        List.map_filter_def)

section \<open>The empty list\<close>

text \<open>
  C4. Whenever the value taken for \<open>reviews\<close> is not an array or is an array with no
  element, the answer is the 200 \<open>{done: true, message: "No reviews left in file.",
  review: null}\<close>, the only call made to the store is the fetch, and the file is as it
  was.
\<close>

theorem next_review_empty:
  assumes "readGitHubFile w = (Inr (c, s), w1)" "parse c = Some j" "get_reviews j = Inr v"
    "\<not> isArray (or_empty v) \<or> elements (or_empty v) = []"
  shows "next_review parse stringify rnd w =
           (\<lparr>code = 200,
             body = JObj [(str ''done'', JBool True),
                          (str ''message'', JStr (str ''No reviews left in file.'')),
                          (str ''review'', JNull)]\<rparr>, w1)
       \<and> blob w1 = blob w
       \<and> calls w1 = calls w @ [Fetch]"
  using next_review_fetch_empty [where parse = parse and stringify = stringify and rnd = rnd, OF assms]
    readGitHubFile_frameD [OF assms(1)]
  by (simp add: next_review_def no_reviews_left_def res_json_def obj_def List.map_filter_def)

theorem next_review_empty_witness:
  "next_review Some sent \<lparr>mant = 0, scale = 0\<rparr>
     \<lparr>blob = Some \<lparr>content = JObj [(str ''reviews'', JArr [])], version = 7\<rparr>,
      faults = [], calls = []\<rparr>
   = (\<lparr>code = 200,
       body = JObj [(str ''done'', JBool True),
                    (str ''message'', JStr (str ''No reviews left in file.'')),
                    (str ''review'', JNull)]\<rparr>,
      \<lparr>blob = Some \<lparr>content = JObj [(str ''reviews'', JArr [])], version = 7\<rparr>,
       faults = [], calls = [Fetch]\<rparr>)"
  using next_review_empty [where parse = Some and stringify = sent
      and rnd = "\<lparr>mant = 0, scale = 0\<rparr>"
      and w = "\<lparr>blob = Some \<lparr>content = JObj [(str ''reviews'', JArr [])], version = 7\<rparr>,
               faults = [], calls = []\<rparr>"
      and c = "JObj [(str ''reviews'', JArr [])]" and s = 7
      and j = "JObj [(str ''reviews'', JArr [])]" and v = "Some (JArr [])"
      and ?w1.0 = "\<lparr>blob = Some \<lparr>content = JObj [(str ''reviews'', JArr [])], version = 7\<rparr>,
               faults = [], calls = [Fetch]\<rparr>"]
  by (simp add: readGitHubFile_def fetch_def next_fault_def)

section \<open>Conflicts\<close>

text \<open>
  C5. Let a request have fetched and be about to write, and let its write fail with
  \<open>ConflictError\<close>, in whatever state the store is by then. The request answers 500
  "Internal server error"; it has made one fetch, and after it one write and nothing
  else: no second fetch, no second write. The file is as the other writer left it.
\<close>

theorem conflict_not_retried:
  assumes "next_review_fetch parse stringify rnd w = (Write p, w1)"
    "writeGitHubFile (newJson p) (fetched_sha p) w2 = (Inl (StoreError ConflictError), w3)"
  shows "next_review_write p w2 = (internal_error, w3)
       \<and> code internal_error = 500
       \<and> calls w1 = calls w @ [Fetch]
       \<and> calls w3 = calls w2 @ [Put (newJson p) (fetched_sha p)]
       \<and> blob w3 = blob w2"
  using assms(2) next_review_fetch_frame(2) [OF assms(1)]
    writeGitHubFile_log [of "newJson p" "fetched_sha p" w2] writeGitHubFile_failed [OF assms(2)]
  by (simp add: next_review_write_def internal_error_def res_json_def)

theorem conflict_not_retried_witness:
  "next_review_fetch Some sent \<lparr>mant = 0, scale = 0\<rparr>
     \<lparr>blob = Some \<lparr>content = JObj [(str ''reviews'', JArr [JNum 1, JNum 2])], version = 4\<rparr>,
      faults = [], calls = []\<rparr>
   = (Write \<lparr>newJson = JObj [(str ''reviews'', JArr [JNum 2])], fetched_sha = 4,
             selected = Some (JNum 1), remaining = 1\<rparr>,
      \<lparr>blob = Some \<lparr>content = JObj [(str ''reviews'', JArr [JNum 1, JNum 2])], version = 4\<rparr>,
       faults = [], calls = [Fetch]\<rparr>)
   \<and> next_review_write
       \<lparr>newJson = JObj [(str ''reviews'', JArr [JNum 2])], fetched_sha = 4,
        selected = Some (JNum 1), remaining = 1\<rparr>
       \<lparr>blob = Some \<lparr>content = JObj [(str ''reviews'', JArr [JNum 1])], version = 5\<rparr>,
        faults = [], calls = [Fetch, Fetch, Put (JObj [(str ''reviews'', JArr [JNum 1])]) 4]\<rparr>
   = (internal_error,
      \<lparr>blob = Some \<lparr>content = JObj [(str ''reviews'', JArr [JNum 1])], version = 5\<rparr>,
       faults = [],
       calls = [Fetch, Fetch, Put (JObj [(str ''reviews'', JArr [JNum 1])]) 4,
              Put (JObj [(str ''reviews'', JArr [JNum 2])]) 4]\<rparr>)"
proof -
  let ?w = "\<lparr>blob = Some \<lparr>content = JObj [(str ''reviews'', JArr [JNum 1, JNum 2])], version = 4\<rparr>,
      faults = [], calls = [] :: json call list\<rparr>"
  let ?p = "\<lparr>newJson = JObj [(str ''reviews'', JArr [JNum 2])], fetched_sha = 4,
             selected = Some (JNum 1), remaining = 1\<rparr>"
  let ?w1 = "\<lparr>blob = Some \<lparr>content = JObj [(str ''reviews'', JArr [JNum 1, JNum 2])], version = 4\<rparr>,
       faults = [], calls = [Fetch :: json call]\<rparr>"
  let ?w2 = "\<lparr>blob = Some \<lparr>content = JObj [(str ''reviews'', JArr [JNum 1])], version = 5\<rparr>,
        faults = [], calls = [Fetch, Fetch, Put (JObj [(str ''reviews'', JArr [JNum 1])]) 4]\<rparr>"
  let ?w3 = "\<lparr>blob = Some \<lparr>content = JObj [(str ''reviews'', JArr [JNum 1])], version = 5\<rparr>,
       faults = [],
       calls = [Fetch, Fetch, Put (JObj [(str ''reviews'', JArr [JNum 1])]) 4,
              Put (JObj [(str ''reviews'', JArr [JNum 2])]) 4]\<rparr>"
  have f: "next_review_fetch Some sent \<lparr>mant = 0, scale = 0\<rparr> ?w = (Write ?p, ?w1)"
    by (simp add: next_review_fetch_def readGitHubFile_def fetch_def next_fault_def
          selectAndRemove_def random_index_exact element_at_def splice1_def obj_def List.map_filter_def)
  have p: "writeGitHubFile (newJson ?p) (fetched_sha ?p) ?w2 = (Inl (StoreError ConflictError), ?w3)"
    by (simp add: writeGitHubFile_def put_def next_fault_def)
  show ?thesis
    using f conflict_not_retried [OF f p] by simp
qed

text \<open>
  C6. Let two requests fetch one after the other, before either writes, with no call of
  the store failing and nobody else writing. They hold the same sha. Whichever of the
  two writes first succeeds and answers with its review; the write of the other one fails
  with \<open>ConflictError\<close> and it answers 500.
\<close>

theorem one_winner_per_version:
  assumes "faults w = []"
    "next_review_fetch parse stringify rndA w = (Write pA, w1)"
    "next_review_fetch parse stringify rndB w1 = (Write pB, w2)"
  shows "fetched_sha pA = fetched_sha pB
       \<and> fst (writeGitHubFile (newJson pA) (fetched_sha pA) w2) = Inr ()
       \<and> fst (writeGitHubFile (newJson pB) (fetched_sha pB)
                (snd (next_review_write pA w2))) = Inl (StoreError ConflictError)
       \<and> fst (next_review_write pA w2) = drawn (selected pA) (remaining pA)
       \<and> fst (next_review_write pB (snd (next_review_write pA w2))) = internal_error
       \<and> fst (writeGitHubFile (newJson pB) (fetched_sha pB) w2) = Inr ()
       \<and> fst (writeGitHubFile (newJson pA) (fetched_sha pA)
                (snd (next_review_write pB w2))) = Inl (StoreError ConflictError)
       \<and> fst (next_review_write pB w2) = drawn (selected pB) (remaining pB)
       \<and> fst (next_review_write pA (snd (next_review_write pB w2))) = internal_error
       \<and> code internal_error = 500"
proof -
  obtain r where r: "blob w = Some r" and sa: "fetched_sha pA = version r"
    using next_review_fetch_sha [OF assms(2,1)] by blast
  have f1: "faults w1 = []" and b1: "blob w1 = Some r"
    using next_review_fetch_frame [OF assms(2)] assms(1) r by simp_all
  have sb: "fetched_sha pB = version r"
    using next_review_fetch_sha [OF assms(3) f1] b1 by auto
  have f2: "faults w2 = []" and b2: "blob w2 = Some r"
    using next_review_fetch_frame [OF assms(3)] f1 b1 by simp_all
  have first: "writeGitHubFile c (version r) w2 =
      (Inr (), w2\<lparr>calls := calls w2 @ [Put c (version r)],
                  blob := Some \<lparr>content = c, version = Suc (version r)\<rparr>\<rparr>)" for c
    using writeGitHubFile_ok [OF f2 b2, of "version r" c] by simp
  have second: "writeGitHubFile c' (version r)
        (w2\<lparr>calls := calls w2 @ [Put c (version r)],
            blob := Some \<lparr>content = c, version = Suc (version r)\<rparr>\<rparr>)
      = (Inl (StoreError ConflictError),
         w2\<lparr>calls := calls w2 @ [Put c (version r)] @ [Put c' (version r)],
            blob := Some \<lparr>content = c, version = Suc (version r)\<rparr>\<rparr>)" for c c'
    using f2 by (simp add: writeGitHubFile_def put_def next_fault_def)
  show ?thesis
    by (simp add: sa sb next_review_write_def first second internal_error_def res_json_def)
qed

theorem one_winner_per_version_witness:
  "fst (next_review_write
         \<lparr>newJson = JObj [(str ''reviews'', JArr [JNum 2])], fetched_sha = 4,
          selected = Some (JNum 1), remaining = 1\<rparr>
         \<lparr>blob = Some \<lparr>content = JObj [(str ''reviews'', JArr [JNum 1, JNum 2])], version = 4\<rparr>,
          faults = [], calls = [Fetch, Fetch]\<rparr>)
     = drawn (Some (JNum 1)) 1
   \<and> fst (next_review_write
         \<lparr>newJson = JObj [(str ''reviews'', JArr [JNum 1])], fetched_sha = 4,
          selected = Some (JNum 2), remaining = 1\<rparr>
         (snd (next_review_write
            \<lparr>newJson = JObj [(str ''reviews'', JArr [JNum 2])], fetched_sha = 4,
             selected = Some (JNum 1), remaining = 1\<rparr>
            \<lparr>blob = Some \<lparr>content = JObj [(str ''reviews'', JArr [JNum 1, JNum 2])], version = 4\<rparr>,
             faults = [], calls = [Fetch, Fetch]\<rparr>)))
     = internal_error"
proof -
  let ?c = "JObj [(str ''reviews'', JArr [JNum 1, JNum 2])]"
  let ?w = "\<lparr>blob = Some \<lparr>content = ?c, version = 4\<rparr>, faults = [], calls = [] :: json call list\<rparr>"
  let ?w1 = "\<lparr>blob = Some \<lparr>content = ?c, version = 4\<rparr>, faults = [], calls = [Fetch :: json call]\<rparr>"
  let ?w2 = "\<lparr>blob = Some \<lparr>content = ?c, version = 4\<rparr>, faults = [],
             calls = [Fetch, Fetch :: json call]\<rparr>"
  let ?pA = "\<lparr>newJson = JObj [(str ''reviews'', JArr [JNum 2])], fetched_sha = 4,
             selected = Some (JNum 1), remaining = 1\<rparr>"
  let ?pB = "\<lparr>newJson = JObj [(str ''reviews'', JArr [JNum 1])], fetched_sha = 4,
             selected = Some (JNum 2), remaining = 1\<rparr>"
  have f: "faults ?w = []" by simp
  have a: "next_review_fetch Some sent \<lparr>mant = 0, scale = 0\<rparr> ?w = (Write ?pA, ?w1)"
    by (simp add: next_review_fetch_def readGitHubFile_def fetch_def next_fault_def
          selectAndRemove_def random_index_exact element_at_def splice1_def obj_def List.map_filter_def)
  have b: "next_review_fetch Some sent \<lparr>mant = 1, scale = 1\<rparr> ?w1 = (Write ?pB, ?w2)"
    by (simp add: next_review_fetch_def readGitHubFile_def fetch_def next_fault_def
          selectAndRemove_def random_index_exact element_at_def splice1_def obj_def List.map_filter_def)
  show ?thesis
    using one_winner_per_version [OF f a b] by simp
qed

section \<open>The answers\<close>

text \<open>
  C7, as the code has it. When the list is not empty and the write succeeds, the answer
  is the 200 \<open>{done: false, review, remaining}\<close> whose \<open>review\<close> is the element at the drawn
  index as JSON text carries it (the element itself unless a number in it is not finite
  or is \<open>-0\<close>) and whose \<open>remaining\<close> is the length of the residual list, one less than the
  length of the list fetched.
\<close>

theorem next_review_success:
  assumes "readGitHubFile w = (Inr (c, s), w1)" "parse c = Some j" "get_reviews j = Inr v"
    "or_empty v = JArr reviews" "reviews \<noteq> []" "unit_double rnd"
    "writeGitHubFile
       (stringify (obj [(''reviews'', Some (JArr (snd (selectAndRemove rnd reviews))))])) s w1
     = (Inr (), w2)"
  shows "next_review parse stringify rnd w =
           (\<lparr>code = 200,
             body = JObj [(str ''done'', JBool False),
                          (str ''review'', sent (reviews ! nat (random_index rnd reviews))),
                          (str ''remaining'', JNum (of_nat (length reviews - 1)))]\<rparr>, w2)
       \<and> nat (random_index rnd reviews) < length reviews
       \<and> fst (selectAndRemove rnd reviews) = Some (reviews ! nat (random_index rnd reviews))
       \<and> length (snd (selectAndRemove rnd reviews)) = length reviews - 1
       \<and> (sent (reviews ! nat (random_index rnd reviews)) = reviews ! nat (random_index rnd reviews)
            \<longrightarrow> field ''review'' (fst (next_review parse stringify rnd w))
                  = fst (selectAndRemove rnd reviews))"
proof -
  have sel: "selectAndRemove rnd reviews =
           (Some (reviews ! nat (random_index rnd reviews)),
            take (nat (random_index rnd reviews)) reviews
              @ drop (Suc (nat (random_index rnd reviews))) reviews)"
    and i: "nat (random_index rnd reviews) < length reviews"
    using selectAndRemove_in_range [OF assms(5,6)] by simp_all
  have len: "length (snd (selectAndRemove rnd reviews)) = length reviews - 1"
    using i by (simp add: sel)
  have n: "next_review parse stringify rnd w =
          (drawn (fst (selectAndRemove rnd reviews)) (length (snd (selectAndRemove rnd reviews))), w2)"
    using next_review_fetch_nonempty
            [where parse = parse and stringify = stringify and rnd = rnd, OF assms(1-5)] assms(7)
    by (simp add: next_review_def next_review_write_def)
  have b: "drawn (Some x) k =
             \<lparr>code = 200,
              body = JObj [(str ''done'', JBool False), (str ''review'', sent x),
                           (str ''remaining'', JNum (of_nat k))]\<rparr>" for x k
    by (simp add: drawn_def res_json_def obj_def List.map_filter_def)
  have f: "field ''review'' (fst (next_review parse stringify rnd w))
             = Some (sent (reviews ! nat (random_index rnd reviews)))"
    by (simp add: n sel field_drawn)
  have c1: "next_review parse stringify rnd w =
           (\<lparr>code = 200,
             body = JObj [(str ''done'', JBool False),
                          (str ''review'', sent (reviews ! nat (random_index rnd reviews))),
                          (str ''remaining'', JNum (of_nat (length reviews - 1)))]\<rparr>, w2)"
    using len by (simp only: n sel fst_conv b)
  have c3: "fst (selectAndRemove rnd reviews) = Some (reviews ! nat (random_index rnd reviews))"
    by (simp add: sel)
  have c5: "sent (reviews ! nat (random_index rnd reviews)) = reviews ! nat (random_index rnd reviews)
            \<longrightarrow> field ''review'' (fst (next_review parse stringify rnd w))
                  = fst (selectAndRemove rnd reviews)"
    using f c3 by simp
  show ?thesis using c1 i c3 len c5 by blast
qed

theorem next_review_success_witness:
  "next_review Some sent \<lparr>mant = 6004799503160661, scale = 54\<rparr>
     \<lparr>blob = Some \<lparr>content = JObj [(str ''reviews'', JArr [JStr (str ''A''), JStr (str ''B''), JStr (str ''C'')])],
                    version = 1\<rparr>,
      faults = [], calls = []\<rparr>
   = (\<lparr>code = 200,
       body = JObj [(str ''done'', JBool False), (str ''review'', JStr (str ''B'')),
                    (str ''remaining'', JNum 2)]\<rparr>,
      \<lparr>blob = Some \<lparr>content = JObj [(str ''reviews'', JArr [JStr (str ''A''), JStr (str ''C'')])],
                     version = 2\<rparr>,
       faults = [],
       calls = [Fetch, Put (JObj [(str ''reviews'', JArr [JStr (str ''A''), JStr (str ''C'')])]) 1]\<rparr>)"
proof -
  let ?rnd = "\<lparr>mant = 6004799503160661, scale = 54\<rparr>"
  let ?xs = "[JStr (str ''A''), JStr (str ''B''), JStr (str ''C'')]"
  let ?c = "JObj [(str ''reviews'', JArr ?xs)]"
  let ?c' = "JObj [(str ''reviews'', JArr [JStr (str ''A''), JStr (str ''C'')])]"
  let ?w = "\<lparr>blob = Some \<lparr>content = ?c, version = 1\<rparr>, faults = [], calls = [] :: json call list\<rparr>"
  let ?w1 = "\<lparr>blob = Some \<lparr>content = ?c, version = 1\<rparr>, faults = [], calls = [Fetch :: json call]\<rparr>"
  let ?w2 = "\<lparr>blob = Some \<lparr>content = ?c', version = 2\<rparr>, faults = [], calls = [Fetch, Put ?c' 1]\<rparr>"
  have u: "unit_double ?rnd" and i: "random_index ?rnd ?xs = 1"
    using random_index_rounds_up [of "JStr (str ''A'')" "JStr (str ''B'')" "JStr (str ''C'')"]
    by simp_all
  have r: "readGitHubFile ?w = (Inr (?c, 1), ?w1)"
    by (simp add: readGitHubFile_def fetch_def next_fault_def)
  have p: "Some ?c = Some ?c" by simp
  have g: "get_reviews ?c = Inr (Some (JArr ?xs))" by simp
  have e: "or_empty (Some (JArr ?xs)) = JArr ?xs" by simp
  have ne: "?xs \<noteq> []" by simp
  have s: "snd (selectAndRemove ?rnd ?xs) = [JStr (str ''A''), JStr (str ''C'')]"
    by (simp add: selectAndRemove_def i element_at_def splice1_def)
  have wr: "writeGitHubFile
       (sent (obj [(''reviews'', Some (JArr (snd (selectAndRemove ?rnd ?xs))))])) 1 ?w1
     = (Inr (), ?w2)"
    by (simp add: s writeGitHubFile_def put_def next_fault_def obj_def List.map_filter_def)
  show ?thesis
    using next_review_success [where parse = Some and stringify = sent, OF r p g e ne u wr]
    by (simp add: i)
qed

text \<open>
  The file \<open>{"reviews": [1e400]}\<close> parses to a list whose one element is \<open>Infinity\<close>. The
  draw selects it, and the answer carries \<open>review: null\<close>: not the selected element.
\<close>

theorem next_review_success_counterexample:
  "fst (selectAndRemove \<lparr>mant = 0, scale = 0\<rparr> [JInfinity]) = Some JInfinity
   \<and> next_review Some sent \<lparr>mant = 0, scale = 0\<rparr>
       \<lparr>blob = Some \<lparr>content = JObj [(str ''reviews'', JArr [JInfinity])], version = 1\<rparr>,
        faults = [], calls = []\<rparr>
     = (\<lparr>code = 200,
         body = JObj [(str ''done'', JBool False), (str ''review'', JNull),
                      (str ''remaining'', JNum 0)]\<rparr>,
        \<lparr>blob = Some \<lparr>content = JObj [(str ''reviews'', JArr [])], version = 2\<rparr>,
         faults = [],
         calls = [Fetch, Put (JObj [(str ''reviews'', JArr [])]) 1]\<rparr>)
   \<and> JNull \<noteq> JInfinity"
  by (simp add: next_review_def next_review_fetch_def next_review_write_def readGitHubFile_def
        writeGitHubFile_def fetch_def put_def next_fault_def selectAndRemove_def
        random_index_exact element_at_def splice1_def drawn_def res_json_def obj_def
        List.map_filter_def)

lemma status_frame:
  "blob (snd (status parse w)) = blob w \<and> calls (snd (status parse w)) = calls w @ [Fetch]"
proof -
  obtain x w1 where r: "readGitHubFile w = (x, w1)" by (cases "readGitHubFile w")
  have "snd (status parse w) = w1"
    using r by (simp add: status_def res_json_def obj_def List.map_filter_def split: sum.splits prod.splits option.splits)
  then show ?thesis using readGitHubFile_frameD [OF r] by simp
qed

lemma status_repeated:
  "blob (((\<lambda>w. snd (status parse w)) ^^ n) w) = blob w
   \<and> calls (((\<lambda>w. snd (status parse w)) ^^ n) w) = calls w @ replicate n Fetch"
proof (induction n)
  case 0
  then show ?case by simp
next
  case (Suc n)
  then show ?case
    using status_frame [of parse "((\<lambda>w. snd (status parse w)) ^^ n) w"]
    by (simp add: replicate_append_same)
qed

text \<open>
  C8. A status request leaves the file as it was and makes one call to the store, a
  fetch; so do any number of status requests in a row. When the value taken for
  \<open>reviews\<close> is an array, the answer is the 200 \<open>{count}\<close> with the number of its elements.
\<close>

theorem status_never_writes:
  "blob (snd (status parse w)) = blob w
   \<and> calls (snd (status parse w)) = calls w @ [Fetch]
   \<and> blob (((\<lambda>w. snd (status parse w)) ^^ n) w) = blob w
   \<and> calls (((\<lambda>w. snd (status parse w)) ^^ n) w) = calls w @ replicate n Fetch
   \<and> (\<forall>c s w1 j v xs.
         readGitHubFile w = (Inr (c, s), w1) \<and> parse c = Some j \<and> get_reviews j = Inr v
         \<and> or_empty v = JArr xs
         \<longrightarrow> status parse w =
               (\<lparr>code = 200, body = obj [(''count'', Some (JNum (of_nat (length xs))))]\<rparr>, w1))"
  using status_frame [of parse w] status_repeated [where parse = parse and n = n and w = w]
  by (simp add: status_def res_json_def obj_def List.map_filter_def)

theorem status_never_writes_witness:
  "status Some
     \<lparr>blob = Some \<lparr>content = JObj [(str ''reviews'', JArr [JNull, JBool True])], version = 1\<rparr>,
      faults = [], calls = []\<rparr>
   = (\<lparr>code = 200, body = JObj [(str ''count'', JNum 2)]\<rparr>,
      \<lparr>blob = Some \<lparr>content = JObj [(str ''reviews'', JArr [JNull, JBool True])], version = 1\<rparr>,
       faults = [], calls = [Fetch]\<rparr>)"
proof -
  let ?c = "JObj [(str ''reviews'', JArr [JNull, JBool True])]"
  let ?w = "\<lparr>blob = Some \<lparr>content = ?c, version = 1\<rparr>, faults = [], calls = []\<rparr>"
  let ?w1 = "\<lparr>blob = Some \<lparr>content = ?c, version = 1\<rparr>, faults = [], calls = [Fetch :: json call]\<rparr>"
  have r: "readGitHubFile ?w = (Inr (?c, 1), ?w1)"
    by (simp add: readGitHubFile_def fetch_def next_fault_def)
  have "readGitHubFile ?w = (Inr (?c, 1), ?w1) \<and> Some ?c = Some ?c
        \<and> get_reviews ?c = Inr (Some (JArr [JNull, JBool True]))
        \<and> or_empty (Some (JArr [JNull, JBool True])) = JArr [JNull, JBool True]"
    using r by simp
  then have "status Some ?w =
      (\<lparr>code = 200, body = obj [(''count'', Some (JNum (of_nat (length [JNull, JBool True]))))]\<rparr>, ?w1)"
    using status_never_writes [where parse = Some and w = ?w and n = 1] by blast
  then show ?thesis by (simp add: obj_def List.map_filter_def)
qed

text \<open>
  C10. When \<open>reviews\<close> is a non-empty string, the status request answers with the number
  of code units of the string as \<open>count\<close>, while a draw on the same file gives the terminal
  answer: the two handlers disagree on how many reviews there are.
\<close>

theorem status_counts_string_length:
  assumes "readGitHubFile w = (Inr (c, s), w1)" "parse c = Some (JObj kvs)"
    "map_of kvs (str ''reviews'') = Some (JStr t)" "t \<noteq> []"
  shows "status parse w =
           (\<lparr>code = 200, body = obj [(''count'', Some (JNum (of_nat (length t))))]\<rparr>, w1)
       \<and> next_review parse stringify rnd w = (no_reviews_left, w1)"
  using assms
  by (simp add: status_def res_json_def obj_def List.map_filter_def next_review_def next_review_fetch_def)

theorem status_counts_string_length_witness:
  "status Some
     \<lparr>blob = Some \<lparr>content = JObj [(str ''reviews'', JStr (str ''abc''))], version = 1\<rparr>,
      faults = [], calls = []\<rparr>
   = (\<lparr>code = 200, body = JObj [(str ''count'', JNum 3)]\<rparr>,
      \<lparr>blob = Some \<lparr>content = JObj [(str ''reviews'', JStr (str ''abc''))], version = 1\<rparr>,
       faults = [], calls = [Fetch]\<rparr>)
   \<and> next_review Some sent \<lparr>mant = 0, scale = 0\<rparr>
     \<lparr>blob = Some \<lparr>content = JObj [(str ''reviews'', JStr (str ''abc''))], version = 1\<rparr>,
      faults = [], calls = []\<rparr>
   = (no_reviews_left,
      \<lparr>blob = Some \<lparr>content = JObj [(str ''reviews'', JStr (str ''abc''))], version = 1\<rparr>,
       faults = [], calls = [Fetch]\<rparr>)"
  using status_counts_string_length [where parse = Some and stringify = sent and rnd = "\<lparr>mant = 0, scale = 0\<rparr>"
      and w = "\<lparr>blob = Some \<lparr>content = JObj [(str ''reviews'', JStr (str ''abc''))], version = 1\<rparr>,
               faults = [], calls = []\<rparr>"
      and c = "JObj [(str ''reviews'', JStr (str ''abc''))]" and s = 1
      and kvs = "[(str ''reviews'', JStr (str ''abc''))]" and t = "str ''abc''"
      and ?w1.0 = "\<lparr>blob = Some \<lparr>content = JObj [(str ''reviews'', JStr (str ''abc''))], version = 1\<rparr>,
               faults = [], calls = [Fetch]\<rparr>"]
  by (simp add: readGitHubFile_def fetch_def next_fault_def obj_def List.map_filter_def str_def)

end
